theory Spec2Isabelle
  imports Complex_Main
begin

section \<open>Embedding of simulacra_compute_embeddings.py\<close>

text \<open>
  The script reads a rating store (an SQLite file) with one fixed query, loads and
  preprocesses one image per returned row, encodes the images batch by batch with a CLIP
  model and saves the concatenated embeddings and ratings. The embedding below follows
  the script top to bottom. Every exception that the script lets escape is a value
  \<open>Inl e\<close>; the file system is an explicit \<open>world\<close> that is passed through and returned.

  What stays abstract: the pixels of an image and the numbers of an embedding row (type
  parameters \<open>'img\<close> and \<open>'emb\<close>); the choices SQLite documents as arbitrary or
  computes in floating point beyond exactly representable sums (the fields of
  \<open>engine\<close>); resource failures of the libraries (out of memory, interrupted reads).
  Paths are POSIX paths.
\<close>

subsection \<open>Exceptions\<close>

datatype error =
    NameError string                \<comment> \<open>a global name that is bound nowhere\<close>
  | AttributeError string
  | IndexError
  | TypeError string
  | ValueError string               \<comment> \<open>\<open>DataLoader\<close> refusing an option\<close>
  | UnableToOpenDatabase            \<comment> \<open>\<open>sqlite3.OperationalError: unable to open database file\<close>\<close>
  | NotADatabase                    \<comment> \<open>\<open>sqlite3.DatabaseError: file is not a database\<close>\<close>
  | NoSuchTable string              \<comment> \<open>\<open>sqlite3.OperationalError: no such table\<close>\<close>
  | NoSuchColumn string             \<comment> \<open>\<open>sqlite3.OperationalError: no such column\<close>\<close>
  | FileNotFoundError string        \<comment> \<open>\<open>Image.open\<close> on a path with no file\<close>
  | IsADirectoryError string        \<comment> \<open>\<open>Image.open\<close> on a directory\<close>
  | UnidentifiedImageError string   \<comment> \<open>\<open>Image.open\<close> on a file that is no image\<close>
  | NoneDtype                       \<comment> \<open>\<open>RuntimeError\<close> of \<open>torch.tensor(None)\<close>\<close>
  | CatEmptyList                    \<comment> \<open>\<open>RuntimeError\<close> of \<open>torch.cat([])\<close>\<close>
  | ModelNotFound string            \<comment> \<open>\<open>RuntimeError\<close> of \<open>clip.load\<close> on an unknown name\<close>
  | CannotWrite string              \<comment> \<open>\<open>torch.save\<close> failing to open its target\<close>

text \<open>The specification's error taxonomy (its section 7), and where each exception falls.\<close>

datatype failure_class =
  StoreUnavailable | SchemaError | ImageLoadError | EncoderError | SerializationError
  | Unclassified

fun classify :: "error \<Rightarrow> failure_class" where
  "classify UnableToOpenDatabase = StoreUnavailable"
| "classify NotADatabase = StoreUnavailable"
| "classify (NoSuchTable t) = SchemaError"
| "classify (NoSuchColumn c) = SchemaError"
| "classify (FileNotFoundError p) = ImageLoadError"
| "classify (IsADirectoryError p) = ImageLoadError"
| "classify (UnidentifiedImageError p) = ImageLoadError"
| "classify (ModelNotFound n) = EncoderError"
| "classify (CannotWrite p) = SerializationError"
| "classify e = Unclassified"

subsection \<open>Floating point\<close>

text \<open>
  A Python float, and an element of a float tensor: the rational it denotes, or one of
  the three special values. Rounding a rational to the nearest value of a binary format
  with \<open>p\<close> significant bits and exponents from \<open>emin\<close> to \<open>emax\<close>, ties to even, is
  what IEEE 754 prescribes for a division and for a conversion between formats.
\<close>

datatype pyfloat = Finite rat | PlusInf | MinusInf | NotANumber

function bit_length :: "int \<Rightarrow> nat" where
  "bit_length n = (if n \<le> 0 then 0 else Suc (bit_length (n div 2)))"
  by pat_completeness auto
termination
  by (relation "measure nat") auto

declare bit_length.simps [simp del]

text \<open>The exponent \<open>e\<close> with \<open>2 ^ e \<le> |q| < 2 ^ (e + 1)\<close>, for \<open>q\<close> other than 0.\<close>

definition binade :: "rat \<Rightarrow> int" where
  "binade q =
    (case quotient_of \<bar>q\<bar> of (a, b) \<Rightarrow>
       (let e = int (bit_length a) - int (bit_length b)
        in if 2 powi e \<le> \<bar>q\<bar> then e else e - 1))"

definition round_even :: "rat \<Rightarrow> int" where
  "round_even x =
    (let f = \<lfloor>x\<rfloor>; d = x - of_int f
     in if d < 1 / 2 then f else if 1 / 2 < d then f + 1 else if even f then f else f + 1)"

definition ieee_round :: "nat \<Rightarrow> int \<Rightarrow> int \<Rightarrow> rat \<Rightarrow> pyfloat" where
  "ieee_round p emin emax q =
    (if q = 0 then Finite 0
     else (let e = max (binade q) emin;
               u = 2 powi (e - int p + 1);
               r = of_int (round_even (q / u)) * u
           in if 2 powi (emax + 1) \<le> \<bar>r\<bar> then (if 0 < q then PlusInf else MinusInf)
              else Finite r))"

definition binary64 :: "rat \<Rightarrow> pyfloat" where
  "binary64 = ieee_round 53 (- 1022) 1023"

definition binary32 :: "rat \<Rightarrow> pyfloat" where
  "binary32 = ieee_round 24 (- 126) 127"

text \<open>A double converted to single precision, as a float32 tensor stores it.\<close>

definition float32 :: "pyfloat \<Rightarrow> pyfloat" where
  "float32 x = (case x of Finite q \<Rightarrow> binary32 q | _ \<Rightarrow> x)"

subsection \<open>The rating store\<close>

text \<open>
  The four relations of the query, with the columns it reads. The identifier columns and
  \<open>images.idx\<close> hold integers (a row whose identifier is NULL joins with nothing, so a
  store holds it as no row at all). A rating and a path can be a value of any storage
  class of SQLite. A relation lists the names of its columns: a row record carries a
  value for each column the query reads, and a column whose name is not listed is absent
  (its field is never read, since the statement then fails to compile).
\<close>

datatype sqlval = NULL | INTEGER int | REAL pyfloat | TEXT string | BLOB string

record generation_row =
  g_id :: int

record image_row =
  i_id :: int
  i_gid :: int
  i_idx :: int

record rating_row =
  r_iid :: int
  r_rating :: sqlval

record path_row =
  p_iid :: int
  p_path :: sqlval

record 'r relation =
  columns :: "string list"
  rows :: "'r list"

record store =
  t_generations :: "generation_row relation option"
  t_images :: "image_row relation option"
  t_ratings :: "rating_row relation option"
  t_paths :: "path_row relation option"

type_synonym joined_row = "image_row \<times> generation_row \<times> rating_row \<times> path_row"

text \<open>
  A row of the result, as Python receives it:
  \<open>(generations.id, images.idx, paths.path, AVG(ratings.rating))\<close>, the last a float or
  \<open>None\<close>.
\<close>

type_synonym record_row = "int \<times> int \<times> sqlval \<times> pyfloat option"

text \<open>
  What the query leaves to SQLite: which row of a group supplies the columns that are
  neither grouped nor aggregated (the index \<open>bare_row js mod length js\<close> into the group
  \<open>js\<close>), and the double that \<open>AVG\<close> returns where its sum is not exact: for integers of
  large magnitude (\<open>avg_large\<close>) and for inputs that are not all integers (\<open>avg_mixed\<close>,
  which is NULL when the sum is not a number).
\<close>

record engine =
  bare_row :: "joined_row list \<Rightarrow> nat"
  avg_large :: "int list \<Rightarrow> pyfloat"
  avg_mixed :: "sqlval list \<Rightarrow> pyfloat option"

text \<open>
  Compiling the statement resolves the relations of the FROM clause in their order, then
  the columns in the order of the statement's text; the first name that is missing is
  reported.
\<close>

definition missing_columns :: "(string \<times> bool) list \<Rightarrow> string list" where
  "missing_columns checks = [name. (name, present) \<leftarrow> checks, \<not> present]"

definition prepare ::
  "store \<Rightarrow> error + (image_row list \<times> generation_row list \<times> rating_row list \<times> path_row list)"
where
  "prepare s =
    (case t_images s of None \<Rightarrow> Inl (NoSuchTable ''images'') | Some im \<Rightarrow>
    (case t_generations s of None \<Rightarrow> Inl (NoSuchTable ''generations'') | Some ge \<Rightarrow>
    (case t_ratings s of None \<Rightarrow> Inl (NoSuchTable ''ratings'') | Some ra \<Rightarrow>
    (case t_paths s of None \<Rightarrow> Inl (NoSuchTable ''paths'') | Some pa \<Rightarrow>
    (case missing_columns
        [(''generations.id'', ''id'' \<in> set (columns ge)),
         (''images.idx'', ''idx'' \<in> set (columns im)),
         (''paths.path'', ''path'' \<in> set (columns pa)),
         (''ratings.rating'', ''rating'' \<in> set (columns ra)),
         (''images.gid'', ''gid'' \<in> set (columns im)),
         (''images.id'', ''id'' \<in> set (columns im)),
         (''ratings.iid'', ''iid'' \<in> set (columns ra)),
         (''paths.iid'', ''iid'' \<in> set (columns pa))]
      of c # cs \<Rightarrow> Inl (NoSuchColumn c)
       | [] \<Rightarrow> Inr (rows im, rows ge, rows ra, rows pa))))))"

text \<open>
  \<open>FROM images JOIN generations ON images.gid=generations.id
    JOIN ratings ON images.id=ratings.iid JOIN paths ON images.id=paths.iid\<close>:
  three inner joins, as nested loops.
\<close>

definition joined ::
  "image_row list \<Rightarrow> generation_row list \<Rightarrow> rating_row list \<Rightarrow> path_row list \<Rightarrow> joined_row list"
where
  "joined im ge ra pa =
    [(i, g, r, p). i \<leftarrow> im, g \<leftarrow> ge, i_gid i = g_id g,
                   r \<leftarrow> ra, i_id i = r_iid r, p \<leftarrow> pa, i_id i = p_iid p]"

definition key :: "joined_row \<Rightarrow> int" where
  "key j = (case j of (i, g, r, p) \<Rightarrow> i_id i)"

definition rating_of :: "joined_row \<Rightarrow> sqlval" where
  "rating_of j = (case j of (i, g, r, p) \<Rightarrow> r_rating r)"

text \<open>
  \<open>GROUP BY images.id\<close>: one group for each value of the key among the joined rows.
  SQLite groups by sorting on the key, so the groups come in ascending order of
  \<open>images.id\<close>.
\<close>

definition group_keys :: "joined_row list \<Rightarrow> int list" where
  "group_keys js = sort (remdups (map key js))"

definition group_of :: "joined_row list \<Rightarrow> int \<Rightarrow> joined_row list" where
  "group_of js k = filter (\<lambda>j. key j = k) js"

text \<open>
  \<open>AVG\<close> skips NULL and is NULL when nothing is left. Where every remaining value is an
  integer, the sum of the magnitudes is at most \<open>2 ^ 53\<close> and so is the count, the sum
  and the count are exact as doubles and the result is their quotient, rounded once.
\<close>

definition integers :: "sqlval list \<Rightarrow> int list" where
  "integers vs = concat (map (\<lambda>v. case v of INTEGER n \<Rightarrow> [n] | _ \<Rightarrow> []) vs)"

definition AVG :: "engine \<Rightarrow> sqlval list \<Rightarrow> pyfloat option" where
  "AVG q vs =
    (let xs = filter (\<lambda>v. v \<noteq> NULL) vs; ns = integers xs
     in if xs = [] then None
        else if length ns = length xs
        then (if sum_list (map abs ns) \<le> 2 ^ 53 \<and> int (length ns) \<le> 2 ^ 53
              then Some (binary64 (of_int (sum_list ns) / of_int (int (length ns))))
              else Some (avg_large q ns))
        else avg_mixed q xs)"

text \<open>
  The result row of one group: the three bare columns from the row of the group that the
  engine picks, the aggregate from all rows of the group.
\<close>

definition select_row :: "engine \<Rightarrow> joined_row list \<Rightarrow> record_row list" where
  "select_row q js =
    (if js = [] then []
     else (case js ! (bare_row q js mod length js) of
             (i, g, r, p) \<Rightarrow> [(g_id g, i_idx i, p_path p, AVG q (map rating_of js))]))"

definition execute :: "engine \<Rightarrow> store \<Rightarrow> error + record_row list" where
  "execute q s =
    (case prepare s of Inl e \<Rightarrow> Inl e
     | Inr (im, ge, ra, pa) \<Rightarrow>
         (let js = joined im ge ra pa
          in Inr (concat (map (\<lambda>k. select_row q (group_of js k)) (group_keys js)))))"

subsection \<open>The file system and the platform\<close>

record 'emb saved_obj =
  obj_clip_model :: string
  obj_embeds :: "'emb list"
  obj_ratings :: "pyfloat list"

datatype ('img, 'emb) content =
    Database store          \<comment> \<open>an SQLite file (an empty file is the store with no relation)\<close>
  | Picture 'img            \<comment> \<open>a decodable image, as its RGB conversion\<close>
  | Saved "'emb saved_obj"  \<comment> \<open>what \<open>torch.save\<close> wrote\<close>
  | Garbage                 \<comment> \<open>a file with any other content\<close>
  | Directory

record ('img, 'emb) world =
  files :: "string \<Rightarrow> ('img, 'emb) content option"
  writable :: "string \<Rightarrow> bool"   \<comment> \<open>a file can be created or replaced at this path\<close>
  cuda_built :: bool              \<comment> \<open>\<open>torch.backends.cuda.is_built()\<close>\<close>
  mps_built :: bool               \<comment> \<open>\<open>torch.backends.mps.is_built()\<close>\<close>
  sqlite :: engine

definition empty_store :: store where
  "empty_store = \<lparr>t_generations = None, t_images = None, t_ratings = None, t_paths = None\<rparr>"

text \<open>
  \<open>sqlite3.connect(db)\<close> with no further argument opens read-write and creates the file
  when there is none; it fails when the file can be neither opened nor created. The names
  \<open>:memory:\<close> and the empty name open a private, empty database and touch no file.
\<close>

definition private_name :: "string \<Rightarrow> bool" where
  "private_name name = (name = '':memory:'' \<or> name = [])"

definition connect ::
  "string \<Rightarrow> ('img, 'emb) world \<Rightarrow> (error + ('img, 'emb) content) \<times> ('img, 'emb) world"
where
  "connect name w =
    (if private_name name then (Inr (Database empty_store), w)
     else (case files w name of
             Some Directory \<Rightarrow> (Inl UnableToOpenDatabase, w)
           | Some f \<Rightarrow> (Inr f, w)
           | None \<Rightarrow>
               if writable w name
               then (Inr (Database empty_store),
                     w\<lparr>files := (files w)(name \<mapsto> Database empty_store)\<rparr>)
               else (Inl UnableToOpenDatabase, w)))"

definition conn_execute :: "engine \<Rightarrow> ('img, 'emb) content \<Rightarrow> error + record_row list" where
  "conn_execute q f = (case f of Database s \<Rightarrow> execute q s | _ \<Rightarrow> Inl NotADatabase)"

text \<open>
  \<open>Path(images_dir) / filename\<close>, as a string. A path is a root (\<open>/\<close>, or \<open>//\<close> for
  exactly two leading slashes, or none) and the components between slashes that are
  neither empty nor a single dot; an absolute right operand replaces the left one; the
  path with no root and no component is written as a dot.
\<close>

fun split_slash :: "string \<Rightarrow> string list" where
  "split_slash [] = [[]]"
| "split_slash (c # cs) =
    (if c = CHR ''/'' then [] # split_slash cs
     else (case split_slash cs of x # xs \<Rightarrow> (c # x) # xs | [] \<Rightarrow> [[c]]))"

definition path_parts :: "string \<Rightarrow> string list" where
  "path_parts s = filter (\<lambda>x. x \<noteq> [] \<and> x \<noteq> ''.'') (split_slash s)"

definition path_root :: "string \<Rightarrow> string" where
  "path_root s =
    (if take 2 s = ''//'' \<and> take 3 s \<noteq> ''///'' then ''//''
     else if take 1 s = ''/'' then ''/'' else [])"

fun join_slash :: "string list \<Rightarrow> string" where
  "join_slash [] = []"
| "join_slash [x] = x"
| "join_slash (x # y # ys) = x @ ''/'' @ join_slash (y # ys)"

definition joinpath :: "string \<Rightarrow> string \<Rightarrow> string" where
  "joinpath d f =
    (let s = (if take 1 f = ''/'' then path_root f @ join_slash (path_parts f)
              else path_root d @ join_slash (path_parts d @ path_parts f))
     in if s = [] then ''.'' else s)"

text \<open>\<open>Image.open(path).convert("RGB")\<close>.\<close>

definition Image_open :: "('img, 'emb) world \<Rightarrow> string \<Rightarrow> error + 'img" where
  "Image_open w p =
    (case files w p of
       None \<Rightarrow> Inl (FileNotFoundError p)
     | Some (Picture x) \<Rightarrow> Inr x
     | Some Directory \<Rightarrow> Inl (IsADirectoryError p)
     | Some _ \<Rightarrow> Inl (UnidentifiedImageError p))"

subsection \<open>SimulacraDataset\<close>

text \<open>The dataset keeps its connection (here: the name it was opened with).\<close>

record 'img SimulacraDataset =
  ds_images_dir :: string
  ds_transform :: "('img \<Rightarrow> 'img) option"
  ds_conn :: string
  ds_ratings :: "record_row list"

definition SimulacraDataset_init ::
  "string \<Rightarrow> string \<Rightarrow> ('img \<Rightarrow> 'img) option \<Rightarrow> ('img, 'emb) world
    \<Rightarrow> (error + 'img SimulacraDataset) \<times> ('img, 'emb) world"
where
  "SimulacraDataset_init dir name tf w =
    (case connect name w of
       (Inl e, w') \<Rightarrow> (Inl e, w')
     | (Inr f, w') \<Rightarrow>
         (case conn_execute (sqlite w') f of
            Inl e \<Rightarrow> (Inl e, w')
          | Inr rs \<Rightarrow>
              (Inr \<lparr>ds_images_dir = dir, ds_transform = tf, ds_conn = name, ds_ratings = rs\<rparr>,
               w')))"

definition len :: "'img SimulacraDataset \<Rightarrow> nat" where
  "len ds = length (ds_ratings ds)"

text \<open>
  \<open>torch.tensor(rating)\<close>: a scalar tensor of the default type, float32, or a
  \<open>RuntimeError\<close> on \<open>None\<close>.
\<close>

definition torch_tensor :: "pyfloat option \<Rightarrow> error + pyfloat" where
  "torch_tensor v = (case v of None \<Rightarrow> Inl NoneDtype | Some x \<Rightarrow> Inr (float32 x))"

text \<open>
  \<open>__getitem__\<close>. The operator \<open>/\<close> of a path accepts a string only, so a path column that
  holds anything but text raises \<open>TypeError\<close>.
\<close>

definition getitem ::
  "'img SimulacraDataset \<Rightarrow> ('img, 'emb) world \<Rightarrow> nat \<Rightarrow> error + ('img \<times> pyfloat)"
where
  "getitem ds w k =
    (if k < length (ds_ratings ds)
     then (case ds_ratings ds ! k of (gid, idx, filename, rating) \<Rightarrow>
       (case filename of
          TEXT name \<Rightarrow>
            (case Image_open w (joinpath (ds_images_dir ds) name) of
               Inl e \<Rightarrow> Inl e
             | Inr img \<Rightarrow>
                 (let img = (case ds_transform ds of Some t \<Rightarrow> t img | None \<Rightarrow> img)
                  in case torch_tensor rating of Inl e \<Rightarrow> Inl e | Inr r \<Rightarrow> Inr (img, r)))
        | _ \<Rightarrow> Inl (TypeError ''unsupported operand type(s) for /'')))
     else Inl IndexError)"

subsection \<open>DataLoader\<close>

text \<open>
  \<open>data.DataLoader(dataset, batch_size, num_workers=...)\<close>: no shuffling, no dropping of
  the last batch. The batch sampler walks the indices, fills a batch and yields it when
  it holds \<open>batch_size\<close> indices; what is left at the end is the last batch.
\<close>

fun batch_sampler :: "nat \<Rightarrow> nat list \<Rightarrow> nat list \<Rightarrow> nat list list" where
  "batch_sampler bs batch [] = (if batch = [] then [] else [batch])"
| "batch_sampler bs batch (i # is) =
    (if length (batch @ [i]) = bs
     then (batch @ [i]) # batch_sampler bs [] is
     else batch_sampler bs (batch @ [i]) is)"

record 'img loader =
  ld_dataset :: "'img SimulacraDataset"
  ld_batch_size :: nat
  ld_num_workers :: nat

definition DataLoader :: "'img SimulacraDataset \<Rightarrow> int \<Rightarrow> int \<Rightarrow> error + 'img loader" where
  "DataLoader ds bsize workers =
    (if workers < 0 then Inl (ValueError ''num_workers'')
     else if bsize \<le> 0 then Inl (ValueError ''batch_size'')
     else Inr \<lparr>ld_dataset = ds, ld_batch_size = nat bsize, ld_num_workers = nat workers\<rparr>)"

datatype start_method = fork | forkserver | spawn

text \<open>
  Starting the iteration. With workers, the loader starts one process per worker; under
  the start methods \<open>spawn\<close> and \<open>forkserver\<close> the dataset is pickled for each of them,
  and the connection that the dataset keeps cannot be pickled. Otherwise the iteration
  yields the batches of the sampler over \<open>0, ..., len - 1\<close>.
\<close>

definition pickle_error :: error where
  "pickle_error = TypeError ''cannot pickle sqlite3.Connection object''"

definition iter_loader :: "start_method \<Rightarrow> 'img loader \<Rightarrow> error + nat list list" where
  "iter_loader sm ld =
    (if 0 < ld_num_workers ld \<and> sm \<noteq> fork then Inl pickle_error
     else Inr (batch_sampler (ld_batch_size ld) [] [0..<len (ld_dataset ld)]))"

text \<open>
  One batch: the samples of its indices in order (the first failing sample raises), then
  the default collation into a tensor of images and a tensor of ratings.
\<close>

fun fetch ::
  "'img SimulacraDataset \<Rightarrow> ('img, 'emb) world \<Rightarrow> nat list \<Rightarrow> error + ('img \<times> pyfloat) list"
where
  "fetch ds w [] = Inr []"
| "fetch ds w (i # is) =
    (case getitem ds w i of
       Inl e \<Rightarrow> Inl e
     | Inr x \<Rightarrow> (case fetch ds w is of Inl e \<Rightarrow> Inl e | Inr xs \<Rightarrow> Inr (x # xs)))"

definition collate :: "('img \<times> pyfloat) list \<Rightarrow> 'img list \<times> pyfloat list" where
  "collate samples = (map fst samples, map snd samples)"

subsection \<open>The encoder and the module's names\<close>

record ('img, 'emb) encoder =
  encode_image :: "'img list \<Rightarrow> 'emb list"

text \<open>
  What a global name can be bound to. \<open>ClipModule load\<close> is a module whose \<open>load\<close>
  takes the model's name and the device and returns the model with its preprocessing
  transform.
\<close>

datatype ('img, 'emb) pyobj =
    Module string
  | Class string
  | Function string
  | ClipModule "string \<Rightarrow> string \<Rightarrow> error + (('img, 'emb) encoder \<times> ('img \<Rightarrow> 'img))"

type_synonym ('img, 'emb) namespace = "string \<Rightarrow> ('img, 'emb) pyobj option"

text \<open>
  The names the script binds at module level: its ten imports, the class and \<open>main\<close>.
  (No builtin of Python is called \<open>clip\<close> either.)
\<close>

definition module_globals :: "('img, 'emb) namespace" where
  "module_globals = map_of
    [(''argparse'', Module ''argparse''),
     (''os'', Module ''os''),
     (''sqlite3'', Module ''sqlite3''),
     (''Path'', Class ''pathlib.Path''),
     (''torch'', Module ''torch''),
     (''transforms'', Module ''torchvision.transforms''),
     (''Image'', Module ''PIL.Image''),
     (''mp'', Module ''torch.multiprocessing''),
     (''data'', Module ''torch.utils.data''),
     (''tqdm'', Function ''tqdm.tqdm''),
     (''SimulacraDataset'', Class ''SimulacraDataset''),
     (''main'', Function ''main'')]"

subsection \<open>main\<close>

record args =
  batch_size :: int
  clip_model :: string
  db :: string
  device :: "string option"
  images_dir :: string
  num_workers :: int
  "output" :: string
  start_method :: start_method

text \<open>Python's truth value of an optional string: \<open>None\<close> and the empty string are false.\<close>

definition truthy :: "string option \<Rightarrow> bool" where
  "truthy v = (case v of None \<Rightarrow> False | Some s \<Rightarrow> s \<noteq> [])"

text \<open>
  Lines 69 to 76. A device is its name; \<open>torch.device\<close> of a device is that device.
  With \<open>--device\<close> given, line 71 builds the device from the local \<open>device\<close>, which holds
  \<open>cpu\<close>, not from \<open>args.device\<close>.
\<close>

definition resolve_device :: "args \<Rightarrow> ('img, 'emb) world \<Rightarrow> string" where
  "resolve_device a w =
    (let dev = ''cpu'' in
     if truthy (device a) then dev
     else (let dev = (if cuda_built w then ''cuda'' else dev);
               dev = (if mps_built w then ''mps'' else dev)
           in dev))"

text \<open>
  Lines 88 to 91: the loop over the loader, appending one tensor of embeddings and one
  of ratings per batch.
\<close>

fun for_batches ::
  "'img SimulacraDataset \<Rightarrow> ('img, 'emb) world \<Rightarrow> ('img, 'emb) encoder \<Rightarrow> nat list list
    \<Rightarrow> 'emb list list \<Rightarrow> pyfloat list list \<Rightarrow> error + ('emb list list \<times> pyfloat list list)"
where
  "for_batches ds w m [] embeds ratings = Inr (embeds, ratings)"
| "for_batches ds w m (b # bs) embeds ratings =
    (case fetch ds w b of
       Inl e \<Rightarrow> Inl e
     | Inr samples \<Rightarrow>
         (case collate samples of (images_batch, ratings_batch) \<Rightarrow>
            for_batches ds w m bs
              (embeds @ [encode_image m images_batch]) (ratings @ [ratings_batch])))"

text \<open>\<open>torch.cat\<close> along the first dimension; it refuses an empty list.\<close>

definition torch_cat :: "'a list list \<Rightarrow> error + 'a list" where
  "torch_cat ts = (if ts = [] then Inl CatEmptyList else Inr (concat ts))"

definition torch_save ::
  "'emb saved_obj \<Rightarrow> string \<Rightarrow> ('img, 'emb) world \<Rightarrow> (error + unit) \<times> ('img, 'emb) world"
where
  "torch_save obj p w =
    (if writable w p \<and> files w p \<noteq> Some Directory
     then (Inr (), w\<lparr>files := (files w)(p \<mapsto> Saved obj)\<rparr>)
     else (Inl (CannotWrite p), w))"

text \<open>
  Lines 83 to 99, with the model and the transform that \<open>clip.load\<close> returned. The start
  method is the one that line 68 has set.
\<close>

definition run ::
  "('img, 'emb) encoder \<Rightarrow> ('img \<Rightarrow> 'img) \<Rightarrow> args \<Rightarrow> ('img, 'emb) world
    \<Rightarrow> (error + unit) \<times> ('img, 'emb) world"
where
  "run m tf a w =
    (case SimulacraDataset_init (images_dir a) (db a) (Some tf) w of
       (Inl e, w1) \<Rightarrow> (Inl e, w1)
     | (Inr dataset, w1) \<Rightarrow>
     (case DataLoader dataset (batch_size a) (num_workers a) of
        Inl e \<Rightarrow> (Inl e, w1)
      | Inr loader \<Rightarrow>
      (case iter_loader (start_method a) loader of
         Inl e \<Rightarrow> (Inl e, w1)
       | Inr batches \<Rightarrow>
       (case for_batches dataset w1 m batches [] [] of
          Inl e \<Rightarrow> (Inl e, w1)
        | Inr (embeds, ratings) \<Rightarrow>
        (case torch_cat embeds of
           Inl e \<Rightarrow> (Inl e, w1)
         | Inr es \<Rightarrow>
         (case torch_cat ratings of
            Inl e \<Rightarrow> (Inl e, w1)
          | Inr rs \<Rightarrow>
              torch_save \<lparr>obj_clip_model = clip_model a, obj_embeds = es, obj_ratings = rs\<rparr>
                (output a) w1))))))"

text \<open>
  \<open>main\<close> after \<open>parse_args\<close>, run with the global names \<open>g\<close>. Line 80 looks the name
  \<open>clip\<close> up when it is reached.
\<close>

definition main ::
  "('img, 'emb) namespace \<Rightarrow> args \<Rightarrow> ('img, 'emb) world \<Rightarrow> (error + unit) \<times> ('img, 'emb) world"
where
  "main g a w =
    (let dev = resolve_device a w in
     case g ''clip'' of
       None \<Rightarrow> (Inl (NameError ''clip''), w)
     | Some (ClipModule load) \<Rightarrow>
         (case load (clip_model a) dev of
            Inl e \<Rightarrow> (Inl e, w)
          | Inr (model, clip_tf) \<Rightarrow> run model clip_tf a w)
     | Some _ \<Rightarrow> (Inl (AttributeError ''load''), w))"

subsection \<open>Notions used in the statements\<close>

definition filename_of :: "record_row \<Rightarrow> sqlval" where
  "filename_of r = (case r of (gid, idx, filename, rating) \<Rightarrow> filename)"

definition mean_rating_of :: "record_row \<Rightarrow> pyfloat option" where
  "mean_rating_of r = (case r of (gid, idx, filename, rating) \<Rightarrow> rating)"

text \<open>The samples of a batch of indices (none when one of them fails to load).\<close>

definition samples_of ::
  "'img SimulacraDataset \<Rightarrow> ('img, 'emb) world \<Rightarrow> nat list \<Rightarrow> ('img \<times> pyfloat) list" where
  "samples_of ds w b = (case fetch ds w b of Inl e \<Rightarrow> [] | Inr xs \<Rightarrow> xs)"

text \<open>The batch that holds index \<open>i\<close> when \<open>n\<close> records are loaded \<open>bs\<close> at a time.\<close>

definition batch_of :: "nat \<Rightarrow> nat \<Rightarrow> nat \<Rightarrow> nat list" where
  "batch_of bs n i = batch_sampler bs [] [0..<n] ! (i div bs)"

text \<open>
  An encoder in evaluation mode encodes each image of a batch on its own: the
  embeddings of a batch are those of its images, encoded one at a time, in order.
\<close>

definition rowwise :: "('img, 'emb) encoder \<Rightarrow> bool" where
  "rowwise m = (\<forall>xs. encode_image m xs = concat (map (\<lambda>x. encode_image m [x]) xs))"

text \<open>
  The store holds the four relations with the columns the query names.
\<close>

definition has_schema :: "store \<Rightarrow> bool" where
  "has_schema s =
    (case (t_images s, t_generations s, t_ratings s, t_paths s) of
       (Some im, Some ge, Some ra, Some pa) \<Rightarrow>
          ''id'' \<in> set (columns im) \<and> ''gid'' \<in> set (columns im) \<and> ''idx'' \<in> set (columns im)
          \<and> ''id'' \<in> set (columns ge)
          \<and> ''iid'' \<in> set (columns ra) \<and> ''rating'' \<in> set (columns ra)
          \<and> ''iid'' \<in> set (columns pa) \<and> ''path'' \<in> set (columns pa)
     | _ \<Rightarrow> False)"

text \<open>
  A valid store: the relations and columns are there, image and generation identifiers
  are keys, and every foreign key (\<open>images.gid\<close>, \<open>ratings.iid\<close>, \<open>paths.iid\<close>) refers
  to a row that exists.
\<close>

definition valid_store :: "store \<Rightarrow> bool" where
  "valid_store s =
    (case prepare s of
       Inl e \<Rightarrow> False
     | Inr (im, ge, ra, pa) \<Rightarrow>
         distinct (map i_id im) \<and> distinct (map g_id ge)
         \<and> list_all (\<lambda>i. i_gid i \<in> g_id ` set ge) im
         \<and> list_all (\<lambda>r. r_iid r \<in> i_id ` set im) ra
         \<and> list_all (\<lambda>p. p_iid p \<in> i_id ` set im) pa)"

text \<open>The distinct image identifiers of a store.\<close>

definition image_ids :: "store \<Rightarrow> int list" where
  "image_ids s = (case t_images s of None \<Rightarrow> [] | Some t \<Rightarrow> remdups (map i_id (rows t)))"

text \<open>The rating values and the paths stored for image \<open>k\<close>, in the order of their rows.\<close>

definition ratings_for :: "rating_row list \<Rightarrow> int \<Rightarrow> sqlval list" where
  "ratings_for ra k = map r_rating (filter (\<lambda>r. r_iid r = k) ra)"

definition paths_for :: "path_row list \<Rightarrow> int \<Rightarrow> sqlval list" where
  "paths_for pa k = map p_path (filter (\<lambda>p. p_iid p = k) pa)"

text \<open>The generations that image row \<open>i\<close> joins with.\<close>

definition generations_for :: "generation_row list \<Rightarrow> image_row \<Rightarrow> generation_row list" where
  "generations_for ge i = filter (\<lambda>g. i_gid i = g_id g) ge"

text \<open>
  The rating values of an image as the rows of its group carry them: each value once for
  every path row of the image.
\<close>

definition repeated :: "nat \<Rightarrow> 'a list \<Rightarrow> 'a list" where
  "repeated n xs = concat (map (replicate n) xs)"

text \<open>
  Rating values that are integers or NULL, at least one of them an integer, whose sum
  and count stay exact in a double when each is taken \<open>n\<close> times.
\<close>

definition small_integers :: "nat \<Rightarrow> sqlval list \<Rightarrow> bool" where
  "small_integers n vs =
    (list_all (\<lambda>v. case v of NULL \<Rightarrow> True | INTEGER x \<Rightarrow> True | _ \<Rightarrow> False) vs
     \<and> integers vs \<noteq> []
     \<and> int n * sum_list (map abs (integers vs)) \<le> 2 ^ 53
     \<and> int n * int (length (integers vs)) \<le> 2 ^ 53)"

text \<open>The arithmetic mean of integers.\<close>

definition mean :: "int list \<Rightarrow> rat" where
  "mean ns = of_int (sum_list ns) / of_int (int (length ns))"

subsection \<open>A small store, a platform and an invocation\<close>

text \<open>
  An engine for the examples. It reads the bare columns from the first joined row of a
  group. For integers of large magnitude it rounds the sum and the count to doubles and
  divides, as SQLite does from version 3.44 on while the sum fits 64 bits. The stores
  below hold small integers and NULL as ratings, so neither \<open>avg_large\<close> nor
  \<open>avg_mixed\<close> is ever called on them; \<open>avg_mixed\<close> is a stub.
\<close>

definition avg_double :: "int list \<Rightarrow> pyfloat" where
  "avg_double ns =
    (case (binary64 (of_int (sum_list ns)), binary64 (of_int (int (length ns)))) of
       (Finite s, Finite n) \<Rightarrow> binary64 (s / n)
     | _ \<Rightarrow> NotANumber)"

definition engine0 :: engine where
  "engine0 = \<lparr>bare_row = (\<lambda>js. 0), avg_large = avg_double, avg_mixed = (\<lambda>vs. None)\<rparr>"

text \<open>
  Three images of one generation; image 1 is rated 2 and 4, image 2 is rated 5, image 3
  is rated 1, 1 and 2.
\<close>

definition store0 :: store where
  "store0 =
    \<lparr>t_generations = Some \<lparr>columns = [''id''], rows = [\<lparr>g_id = 10\<rparr>]\<rparr>,
     t_images = Some \<lparr>columns = [''id'', ''gid'', ''idx''],
       rows = [\<lparr>i_id = 1, i_gid = 10, i_idx = 0\<rparr>, \<lparr>i_id = 2, i_gid = 10, i_idx = 1\<rparr>,
               \<lparr>i_id = 3, i_gid = 10, i_idx = 2\<rparr>]\<rparr>,
     t_ratings = Some \<lparr>columns = [''iid'', ''rating''],
       rows = [\<lparr>r_iid = 1, r_rating = INTEGER 2\<rparr>, \<lparr>r_iid = 1, r_rating = INTEGER 4\<rparr>,
               \<lparr>r_iid = 2, r_rating = INTEGER 5\<rparr>, \<lparr>r_iid = 3, r_rating = INTEGER 1\<rparr>,
               \<lparr>r_iid = 3, r_rating = INTEGER 1\<rparr>, \<lparr>r_iid = 3, r_rating = INTEGER 2\<rparr>]\<rparr>,
     t_paths = Some \<lparr>columns = [''iid'', ''path''],
       rows = [\<lparr>p_iid = 1, p_path = TEXT ''a.png''\<rparr>, \<lparr>p_iid = 2, p_path = TEXT ''b.png''\<rparr>,
               \<lparr>p_iid = 3, p_path = TEXT ''c.png''\<rparr>]\<rparr>\<rparr>"

text \<open>The records of that store: the means 3, 5 and the double nearest to 4/3.\<close>

definition records0 :: "record_row list" where
  "records0 =
    [(10, 0, TEXT ''a.png'', Some (Finite 3)),
     (10, 1, TEXT ''b.png'', Some (Finite 5)),
     (10, 2, TEXT ''c.png'', Some (Finite (6004799503160661 / 4503599627370496)))]"

text \<open>Pictures and embedding rows are numbers here.\<close>

definition world0 :: "(nat, nat) world" where
  "world0 =
    \<lparr>files = map_of
       [(''sac.db'', Database store0), (''img/a.png'', Picture 1), (''img/b.png'', Picture 2),
        (''img/c.png'', Picture 3)],
     writable = (\<lambda>p. p = ''out.pth''),
     cuda_built = False, mps_built = False, sqlite = engine0\<rparr>"

definition encoder0 :: "(nat, nat) encoder" where
  "encoder0 = \<lparr>encode_image = map (\<lambda>x. 10 * x)\<rparr>"

definition load0 :: "string \<Rightarrow> string \<Rightarrow> error + ((nat, nat) encoder \<times> (nat \<Rightarrow> nat))" where
  "load0 name dev = Inr (encoder0, Suc)"

text \<open>The module's names with \<open>clip\<close> bound in addition, as an \<open>import clip\<close> would.\<close>

definition names0 :: "(nat, nat) namespace" where
  "names0 = module_globals(''clip'' \<mapsto> ClipModule load0)"

text \<open>An invocation that loads in the main process, two images at a time.\<close>

definition args0 :: args where
  "args0 = \<lparr>batch_size = 2, clip_model = ''ViT-B/16'', db = ''sac.db'', device = None,
     images_dir = ''img'', num_workers = 0, output = ''out.pth'', start_method = spawn\<rparr>"

text \<open>The invocation with the script's defaults: ten images at a time, eight workers.\<close>

definition args_default :: args where
  "args_default = args0\<lparr>batch_size := 10, num_workers := 8\<rparr>"

text \<open>What a run of \<open>args0\<close> on \<open>world0\<close> saves.\<close>

definition saved0 :: "nat saved_obj" where
  "saved0 =
    \<lparr>obj_clip_model = ''ViT-B/16'', obj_embeds = [20, 30, 40],
     obj_ratings = [Finite 3, Finite 5, Finite (11184811 / 8388608)]\<rparr>"

text \<open>The same platform with a store that holds the four relations and no row.\<close>

definition store1 :: store where
  "store1 =
    \<lparr>t_generations = Some \<lparr>columns = [''id''], rows = []\<rparr>,
     t_images = Some \<lparr>columns = [''id'', ''gid'', ''idx''], rows = []\<rparr>,
     t_ratings = Some \<lparr>columns = [''iid'', ''rating''], rows = []\<rparr>,
     t_paths = Some \<lparr>columns = [''iid'', ''path''], rows = []\<rparr>\<rparr>"

definition world1 :: "(nat, nat) world" where
  "world1 = world0\<lparr>files := (files world0)(''sac.db'' \<mapsto> Database store1)\<rparr>"

text \<open>A valid store in which image 2 has a path and no rating.\<close>

definition store2 :: store where
  "store2 =
    \<lparr>t_generations = Some \<lparr>columns = [''id''], rows = [\<lparr>g_id = 10\<rparr>]\<rparr>,
     t_images = Some \<lparr>columns = [''id'', ''gid'', ''idx''],
       rows = [\<lparr>i_id = 1, i_gid = 10, i_idx = 0\<rparr>, \<lparr>i_id = 2, i_gid = 10, i_idx = 1\<rparr>]\<rparr>,
     t_ratings = Some \<lparr>columns = [''iid'', ''rating''],
       rows = [\<lparr>r_iid = 1, r_rating = INTEGER 2\<rparr>, \<lparr>r_iid = 1, r_rating = INTEGER 4\<rparr>]\<rparr>,
     t_paths = Some \<lparr>columns = [''iid'', ''path''],
       rows = [\<lparr>p_iid = 1, p_path = TEXT ''a.png''\<rparr>, \<lparr>p_iid = 2, p_path = TEXT ''b.png''\<rparr>]\<rparr>\<rparr>"

text \<open>A store whose one image has a path and one rating row, with the rating NULL.\<close>

definition store3 :: store where
  "store3 =
    \<lparr>t_generations = Some \<lparr>columns = [''id''], rows = [\<lparr>g_id = 10\<rparr>]\<rparr>,
     t_images = Some \<lparr>columns = [''id'', ''gid'', ''idx''],
       rows = [\<lparr>i_id = 1, i_gid = 10, i_idx = 0\<rparr>]\<rparr>,
     t_ratings = Some \<lparr>columns = [''iid'', ''rating''],
       rows = [\<lparr>r_iid = 1, r_rating = NULL\<rparr>]\<rparr>,
     t_paths = Some \<lparr>columns = [''iid'', ''path''],
       rows = [\<lparr>p_iid = 1, p_path = TEXT ''a.png''\<rparr>]\<rparr>\<rparr>"

text \<open>A platform with the pictures and no file at \<open>sac.db\<close>, in a directory one can write to.\<close>

definition world2 :: "(nat, nat) world" where
  "world2 =
    \<lparr>files = map_of
       [(''img/a.png'', Picture 1), (''img/b.png'', Picture 2), (''img/c.png'', Picture 3)],
     writable = (\<lambda>p. p = ''out.pth'' \<or> p = ''sac.db''),
     cuda_built = False, mps_built = False, sqlite = engine0\<rparr>"

text \<open>The platform of \<open>world0\<close> after \<open>img/b.png\<close> was removed.\<close>

definition world3 :: "(nat, nat) world" where
  "world3 = world0\<lparr>files := (files world0)(''img/b.png'' := None)\<rparr>"

section \<open>Rounding\<close>

lemma bit_length_bounds:
  "0 < n \<Longrightarrow> 2 ^ (bit_length n - 1) \<le> n \<and> n < 2 ^ bit_length n"
proof (induction n rule: bit_length.induct)
  case (1 n)
  show ?case
  proof (cases "n div 2 \<le> 0")
    case True
    with "1.prems" have "n = 1" by presburger
    then show ?thesis by (simp add: bit_length.simps)
  next
    case False
    then have pos: "0 < n div 2" by simp
    with "1.IH" "1.prems" have IH: "2 ^ (bit_length (n div 2) - 1) \<le> n div 2"
      "n div 2 < 2 ^ bit_length (n div 2)" by auto
    have bl: "bit_length n = Suc (bit_length (n div 2))"
      using "1.prems" by (subst bit_length.simps) simp
    have blpos: "0 < bit_length (n div 2)"
      using pos by (subst bit_length.simps) simp
    from IH(1) have "2 * 2 ^ (bit_length (n div 2) - 1) \<le> n" by linarith
    moreover have "2 * 2 ^ (bit_length (n div 2) - 1) = (2::int) ^ bit_length (n div 2)"
      using blpos by (cases "bit_length (n div 2)") simp_all
    moreover from IH(2) have "n < 2 * 2 ^ bit_length (n div 2)" by linarith
    ultimately show ?thesis by (simp add: bl)
  qed
qed

lemma binade_bounds:
  assumes "q \<noteq> 0"
  shows "2 powi (binade q) \<le> \<bar>q\<bar> \<and> \<bar>q\<bar> < 2 powi (binade q + 1)"
proof -
  obtain a b where ab: "quotient_of \<bar>q\<bar> = (a, b)" by (cases "quotient_of \<bar>q\<bar>")
  then have b: "0 < b" and x: "\<bar>q\<bar> = of_int a / of_int b"
    by (simp_all add: quotient_of_denom_pos quotient_of_div)
  from assms have xpos: "0 < \<bar>q\<bar>" by simp
  with x b have a: "0 < a" by (simp add: zero_less_divide_iff)
  let ?la = "bit_length a" and ?lb = "bit_length b"
  let ?A = "of_int a :: rat" and ?B = "of_int b :: rat"
  from bit_length_bounds [OF a]
  have "2 ^ (?la - 1) \<le> a" "a < 2 ^ ?la" by simp_all
  then have A: "2 ^ (?la - 1) \<le> ?A" "?A < 2 ^ ?la"
    by (metis of_int_le_iff of_int_numeral of_int_power,
        metis of_int_less_iff of_int_numeral of_int_power)
  from bit_length_bounds [OF b]
  have "2 ^ (?lb - 1) \<le> b" "b < 2 ^ ?lb" by simp_all
  then have B: "2 ^ (?lb - 1) \<le> ?B" "?B < 2 ^ ?lb"
    by (metis of_int_le_iff of_int_numeral of_int_power,
        metis of_int_less_iff of_int_numeral of_int_power)
  have lapos: "0 < ?la" using a by (subst bit_length.simps) simp
  have lbpos: "0 < ?lb" using b by (subst bit_length.simps) simp
  have la: "(2::rat) ^ ?la = 2 * 2 ^ (?la - 1)" using lapos by (cases ?la) simp_all
  have lb: "(2::rat) ^ ?lb = 2 * 2 ^ (?lb - 1)" using lbpos by (cases ?lb) simp_all
  have Bpos: "0 < ?B" using b by simp
  have Apos: "0 < ?A" using a by simp
  let ?e = "int ?la - int ?lb"
  have pw: "(2::rat) powi ?e = 2 ^ ?la / 2 ^ ?lb"
    by (simp add: power_int_diff)
  have upper: "\<bar>q\<bar> < 2 powi (?e + 1)"
  proof -
    have "?A / ?B < 2 ^ ?la / ?B" using A(2) Bpos by (simp add: divide_strict_right_mono)
    also have "\<dots> \<le> 2 ^ ?la / 2 ^ (?lb - 1)"
      using B(1) Bpos by (intro divide_left_mono mult_pos_pos) simp_all
    also have "\<dots> = 2 powi (?e + 1)"
      by (simp add: power_int_add pw lb)
    finally show ?thesis by (simp add: x)
  qed
  have lower: "2 powi (?e - 1) \<le> \<bar>q\<bar>"
  proof -
    have "2 powi (?e - 1) = 2 ^ (?la - 1) / (2::rat) ^ ?lb"
      by (simp add: power_int_diff pw la)
    also have "\<dots> \<le> ?A / 2 ^ ?lb" using A(1) by (simp add: divide_right_mono)
    also have "\<dots> \<le> ?A / ?B"
      using B(2) Apos Bpos by (intro divide_left_mono mult_pos_pos) simp_all
    finally show ?thesis by (simp add: x)
  qed
  show ?thesis
  proof (cases "2 powi ?e \<le> \<bar>q\<bar>")
    case True
    then have "binade q = ?e" by (simp add: binade_def ab)
    with True upper show ?thesis by simp
  next
    case False
    then have "binade q = ?e - 1" by (simp add: binade_def ab)
    with False lower show ?thesis by simp
  qed
qed

lemma binade_eqI:
  assumes "2 powi e \<le> \<bar>q\<bar>" and "\<bar>q\<bar> < 2 powi (e + 1)"
  shows "binade q = e"
proof -
  have "(0::rat) < 2 powi e" by simp
  with assms(1) have "0 < \<bar>q\<bar>" by linarith
  then have "q \<noteq> 0" by simp
  from binade_bounds [OF this]
  have b: "2 powi (binade q) \<le> \<bar>q\<bar>" "\<bar>q\<bar> < 2 powi (binade q + 1)" by simp_all
  have "\<not> binade q < e"
  proof
    assume "binade q < e"
    then have "(2::rat) powi (binade q + 1) \<le> 2 powi e"
      by (intro power_int_increasing) simp_all
    with b(2) assms(1) show False by linarith
  qed
  moreover have "\<not> e < binade q"
  proof
    assume "e < binade q"
    then have "(2::rat) powi (e + 1) \<le> 2 powi (binade q)"
      by (intro power_int_increasing) simp_all
    with b(1) assms(2) show False by linarith
  qed
  ultimately show ?thesis by simp
qed

lemma floor_numeral_div:
  "\<lfloor>(numeral a :: rat) / numeral b\<rfloor> = (numeral a :: int) div numeral b"
  using floor_divide_of_int_eq [of "numeral a" "numeral b", where ?'a = rat] by simp

text \<open>The values of the examples.\<close>

lemma binary64_3: "binary64 3 = Finite 3"
  unfolding binary64_def ieee_round_def
  by (subst binade_eqI [of 1]) (simp_all add: round_even_def power_int_minus Let_def)

lemma binary64_5: "binary64 5 = Finite 5"
  unfolding binary64_def ieee_round_def
  by (subst binade_eqI [of 2]) (simp_all add: round_even_def power_int_minus Let_def)

lemma binary64_4_3: "binary64 (4 / 3) = Finite (6004799503160661 / 4503599627370496)"
  unfolding binary64_def ieee_round_def
  by (subst binade_eqI [of 0])
    (simp_all add: round_even_def power_int_minus Let_def floor_numeral_div)

lemma float32_3: "float32 (Finite 3) = Finite 3"
  unfolding float32_def binary32_def ieee_round_def
  by (simp, subst binade_eqI [of 1]) (simp_all add: round_even_def power_int_minus Let_def)

lemma float32_5: "float32 (Finite 5) = Finite 5"
  unfolding float32_def binary32_def ieee_round_def
  by (simp, subst binade_eqI [of 2]) (simp_all add: round_even_def power_int_minus Let_def)

lemma float32_4_3:
  "float32 (Finite (6004799503160661 / 4503599627370496)) = Finite (11184811 / 8388608)"
  unfolding float32_def binary32_def ieee_round_def
  by (simp, subst binade_eqI [of 0])
    (simp_all add: round_even_def power_int_minus Let_def floor_numeral_div)

section \<open>The encoder is never loaded\<close>

text \<open>
  C3. The script binds no global \<open>clip\<close>. Whatever the arguments and the platform, and
  whichever device lines 69 to 76 resolve, \<open>main\<close> raises \<open>NameError\<close> at line 80 and
  leaves the file system as it was: no store is opened, no image is read and no output
  is written.
\<close>

theorem main_NameError:
  "main module_globals a w = (Inl (NameError ''clip''), w)"
  by (simp add: main_def module_globals_def)

section \<open>The device\<close>

text \<open>
  C4, evaluated on the code. With \<open>--device cuda\<close> the device in use is \<open>cpu\<close>: line 71
  reads the variable \<open>device\<close> where \<open>args.device\<close> is meant, so the flag only switches
  the detection off.
\<close>

theorem resolve_device_flag_cuda:
  "resolve_device (a\<lparr>device := Some ''cuda''\<rparr>) w = ''cpu''"
  by (simp add: resolve_device_def truthy_def)

section \<open>The batch iterator\<close>

lemma concat_batch_sampler: "concat (batch_sampler bs batch is) = batch @ is"
  by (induction "is" arbitrary: batch) auto

lemma batch_sampler_full:
  "0 < bs \<Longrightarrow> length batch < bs \<Longrightarrow> b \<in> set (butlast (batch_sampler bs batch is))
    \<Longrightarrow> length b = bs"
proof (induction "is" arbitrary: batch)
  case Nil
  then show ?case by (simp split: if_splits)
next
  case (Cons i "is")
  show ?case
  proof (cases "length (batch @ [i]) = bs")
    case True
    with Cons.prems have "b = batch @ [i] \<or> b \<in> set (butlast (batch_sampler bs [] is))"
      by (auto split: if_splits)
    then show ?thesis
    proof
      assume "b = batch @ [i]"
      with True show ?thesis by simp
    next
      assume "b \<in> set (butlast (batch_sampler bs [] is))"
      with Cons.IH [of "[]"] Cons.prems(1) show ?thesis by simp
    qed
  next
    case False
    with Cons.prems have "length (batch @ [i]) < bs" by simp
    moreover from False Cons.prems have "b \<in> set (butlast (batch_sampler bs (batch @ [i]) is))"
      by simp
    ultimately show ?thesis using Cons.IH [of "batch @ [i]"] Cons.prems(1) by blast
  qed
qed

lemma batch_sampler_bounds:
  "0 < bs \<Longrightarrow> length batch < bs \<Longrightarrow> b \<in> set (batch_sampler bs batch is)
    \<Longrightarrow> b \<noteq> [] \<and> length b \<le> bs"
proof (induction "is" arbitrary: batch)
  case Nil
  then show ?case by (simp split: if_splits)
next
  case (Cons i "is")
  show ?case
  proof (cases "length (batch @ [i]) = bs")
    case True
    with Cons.prems have "b = batch @ [i] \<or> b \<in> set (batch_sampler bs [] is)"
      by (auto split: if_splits)
    then show ?thesis
    proof
      assume "b = batch @ [i]"
      with True show ?thesis by auto
    next
      assume "b \<in> set (batch_sampler bs [] is)"
      with Cons.IH [of "[]"] Cons.prems(1) show ?thesis by simp
    qed
  next
    case False
    with Cons.prems have "length (batch @ [i]) < bs" by simp
    moreover from False Cons.prems have "b \<in> set (batch_sampler bs (batch @ [i]) is)"
      by simp
    ultimately show ?thesis using Cons.IH [of "batch @ [i]"] Cons.prems(1) by blast
  qed
qed

lemma batch_sampler_Nil_iff: "batch_sampler bs [] is = [] \<longleftrightarrow> is = []"
proof
  assume "batch_sampler bs [] is = []"
  then have "concat (batch_sampler bs [] is) = []" by simp
  then show "is = []" by (simp add: concat_batch_sampler)
next
  assume "is = []" then show "batch_sampler bs [] is = []" by simp
qed

text \<open>Position \<open>i\<close> of a concatenation of blocks of \<open>n\<close> elements, the last one possibly shorter.\<close>

lemma nth_concat_uniform:
  "0 < n \<Longrightarrow> \<forall>ys \<in> set (butlast yss). length ys = n \<Longrightarrow> \<forall>ys \<in> set yss. length ys \<le> n
    \<Longrightarrow> i < length (concat yss)
    \<Longrightarrow> i div n < length yss \<and> concat yss ! i = yss ! (i div n) ! (i mod n)"
proof (induction yss arbitrary: i)
  case Nil
  then show ?case by simp
next
  case (Cons ys yss)
  show ?case
  proof (cases "yss = []")
    case True
    with Cons.prems show ?thesis by simp
  next
    case False
    with Cons.prems have ly: "length ys = n" by simp
    show ?thesis
    proof (cases "i < n")
      case True
      with ly show ?thesis by (simp add: nth_append)
    next
      case ge: False
      then have i: "i div n = Suc ((i - n) div n)" "i mod n = (i - n) mod n"
        using Cons.prems(1) by (simp_all add: le_div_geq le_mod_geq)
      from False Cons.prems have a: "\<forall>ys \<in> set (butlast yss). length ys = n"
        and b: "\<forall>ys \<in> set yss. length ys \<le> n" by simp_all
      from ge Cons.prems(4) ly have c: "i - n < length (concat yss)" by simp
      from Cons.IH [OF Cons.prems(1) a b c] ge ly show ?thesis
        by (simp add: nth_append i)
    qed
  qed
qed

section \<open>The pipeline\<close>

lemma fetch_append:
  "fetch ds w (is @ js) =
    (case fetch ds w is of Inl e \<Rightarrow> Inl e
     | Inr xs \<Rightarrow> (case fetch ds w js of Inl e \<Rightarrow> Inl e | Inr ys \<Rightarrow> Inr (xs @ ys)))"
  by (induction "is") (auto split: sum.splits)

lemma fetch_length: "fetch ds w is = Inr xs \<Longrightarrow> length xs = length is"
  by (induction "is" arbitrary: xs) (auto split: sum.splits)

lemma fetch_nth:
  "fetch ds w is = Inr xs \<Longrightarrow> k < length is \<Longrightarrow> getitem ds w (is ! k) = Inr (xs ! k)"
proof (induction "is" arbitrary: xs k)
  case Nil
  then show ?case by simp
next
  case (Cons i "is")
  then show ?case by (cases k) (auto split: sum.splits)
qed

lemma fetch_sub:
  "fetch ds w [0..<n] = Inr xs \<Longrightarrow> \<forall>j \<in> set b. j < n \<Longrightarrow> fetch ds w b = Inr (map (nth xs) b)"
proof (induction b)
  case Nil
  then show ?case by simp
next
  case (Cons j b)
  then have "getitem ds w ([0..<n] ! j) = Inr (xs ! j)" by (intro fetch_nth) simp_all
  with Cons show ?case by simp
qed

lemma fetch_concat:
  "fetch ds w (concat bss) = Inr xs \<Longrightarrow> concat (map (samples_of ds w) bss) = xs"
  by (induction bss arbitrary: xs) (auto simp: fetch_append samples_of_def split: sum.splits)

lemma for_batches_eq:
  "for_batches ds w m bss E R =
    (case fetch ds w (concat bss) of
       Inl e \<Rightarrow> Inl e
     | Inr xs \<Rightarrow> Inr (E @ map (\<lambda>b. encode_image m (map fst (samples_of ds w b))) bss,
                      R @ map (\<lambda>b. map snd (samples_of ds w b)) bss))"
proof (induction bss arbitrary: E R)
  case Nil
  then show ?case by simp
next
  case (Cons b bss)
  show ?case
  proof (cases "fetch ds w b")
    case (Inl e)
    then show ?thesis by (simp add: fetch_append)
  next
    case (Inr xs)
    then show ?thesis
      by (simp add: fetch_append Cons.IH collate_def samples_of_def split: sum.splits)
  qed
qed

lemma concat_map_snd_samples:
  assumes "fetch ds w (concat bss) = Inr xs"
  shows "concat (map (\<lambda>b. map snd (samples_of ds w b)) bss) = map snd xs"
proof -
  from assms have "concat (map (samples_of ds w) bss) = xs" by (rule fetch_concat)
  then have "map snd (concat (map (samples_of ds w) bss)) = map snd xs" by simp
  then show ?thesis by (simp add: map_concat comp_def)
qed

lemma concat_rowwise:
  assumes "rowwise m" "fetch ds w (concat bss) = Inr xs"
  shows "concat (map (\<lambda>b. encode_image m (map fst (samples_of ds w b))) bss)
          = concat (map (\<lambda>x. encode_image m [x]) (map fst xs))"
proof -
  have "concat (map (\<lambda>b. encode_image m (map fst (samples_of ds w b))) bss)
      = concat (map (\<lambda>b. concat (map (\<lambda>x. encode_image m [x]) (map fst (samples_of ds w b)))) bss)"
    using assms(1) unfolding rowwise_def by metis
  also have "\<dots> = concat (map (\<lambda>x. encode_image m [x]) (map fst (concat (map (samples_of ds w) bss))))"
    by (induction bss) auto
  finally show ?thesis using fetch_concat [OF assms(2)] by simp
qed

text \<open>
  What a run does once its loader is built: it stops where the workers are started when
  these need a pickled dataset, and otherwise loads the samples of all indices in order.
\<close>

lemma run_char:
  assumes "0 < batch_size a" and "0 \<le> num_workers a"
  shows "run m tf a w =
    (case SimulacraDataset_init (images_dir a) (db a) (Some tf) w of
       (Inl e, w1) \<Rightarrow> (Inl e, w1)
     | (Inr ds, w1) \<Rightarrow>
         if 0 < num_workers a \<and> start_method a \<noteq> fork then (Inl pickle_error, w1)
         else
         (case fetch ds w1 [0..<len ds] of
            Inl e \<Rightarrow> (Inl e, w1)
          | Inr xs \<Rightarrow>
              if xs = [] then (Inl CatEmptyList, w1)
              else torch_save
                \<lparr>obj_clip_model = clip_model a,
                 obj_embeds = concat (map (\<lambda>b. encode_image m (map fst (samples_of ds w1 b)))
                   (batch_sampler (nat (batch_size a)) [] [0..<len ds])),
                 obj_ratings = map snd xs\<rparr> (output a) w1))"
proof (cases "SimulacraDataset_init (images_dir a) (db a) (Some tf) w")
  case (Pair r w1)
  show ?thesis
  proof (cases r)
    case (Inl e)
    with Pair show ?thesis by (simp add: run_def)
  next
    case (Inr ds)
    let ?B = "batch_sampler (nat (batch_size a)) [] [0..<len ds]"
    let ?ld = "\<lparr>ld_dataset = ds, ld_batch_size = nat (batch_size a),
      ld_num_workers = nat (num_workers a)\<rparr>"
    have dl: "DataLoader ds (batch_size a) (num_workers a) = Inr ?ld"
      using assms by (simp add: DataLoader_def)
    show ?thesis
    proof (cases "0 < num_workers a \<and> start_method a \<noteq> fork")
      case True
      then have "iter_loader (start_method a) ?ld = Inl pickle_error"
        by (simp add: iter_loader_def)
      with Pair Inr dl True show ?thesis by (simp add: run_def)
    next
      case False
      then have it: "iter_loader (start_method a) ?ld = Inr ?B"
        by (auto simp: iter_loader_def)
      have cc: "concat ?B = [0..<len ds]" by (simp add: concat_batch_sampler)
      show ?thesis
      proof (cases "fetch ds w1 [0..<len ds]")
        case (Inl e)
        with Pair Inr dl it cc False show ?thesis by (auto simp add: run_def for_batches_eq)
      next
        case fx: (Inr xs)
        have len: "length xs = len ds" using fetch_length [OF fx] by simp
        have emp: "?B = [] \<longleftrightarrow> xs = []"
          using len by (auto simp: batch_sampler_Nil_iff)
        have rr: "concat (map (\<lambda>b. map snd (samples_of ds w1 b)) ?B) = map snd xs"
          using fx cc by (simp add: concat_map_snd_samples)
        from Pair Inr dl it cc fx emp rr False show ?thesis
          by (auto simp add: run_def for_batches_eq torch_cat_def)
      qed
    qed
  qed
qed

lemma run_rowwise:
  assumes "0 < batch_size a" and "0 \<le> num_workers a" and "rowwise m"
  shows "run m tf a w =
    (case SimulacraDataset_init (images_dir a) (db a) (Some tf) w of
       (Inl e, w1) \<Rightarrow> (Inl e, w1)
     | (Inr ds, w1) \<Rightarrow>
         if 0 < num_workers a \<and> start_method a \<noteq> fork then (Inl pickle_error, w1)
         else
         (case fetch ds w1 [0..<len ds] of
            Inl e \<Rightarrow> (Inl e, w1)
          | Inr xs \<Rightarrow>
              if xs = [] then (Inl CatEmptyList, w1)
              else torch_save
                \<lparr>obj_clip_model = clip_model a,
                 obj_embeds = concat (map (\<lambda>x. encode_image m [x]) (map fst xs)),
                 obj_ratings = map snd xs\<rparr> (output a) w1))"
proof (cases "SimulacraDataset_init (images_dir a) (db a) (Some tf) w")
  case (Pair r w1)
  show ?thesis
  proof (cases r)
    case (Inl e)
    with Pair show ?thesis by (simp add: run_char [OF assms(1,2)])
  next
    case (Inr ds)
    show ?thesis
    proof (cases "fetch ds w1 [0..<len ds]")
      case (Inl e)
      with Pair Inr show ?thesis by (simp add: run_char [OF assms(1,2)])
    next
      case fx: (Inr xs)
      have "concat (map (\<lambda>b. encode_image m (map fst (samples_of ds w1 b)))
              (batch_sampler (nat (batch_size a)) [] [0..<len ds]))
            = concat (map (\<lambda>x. encode_image m [x]) (map fst xs))"
        using fx by (intro concat_rowwise [OF assms(3)]) (simp add: concat_batch_sampler)
      with Pair Inr fx show ?thesis by (simp add: run_char [OF assms(1,2)])
    qed
  qed
qed

lemma run_bad_workers:
  "num_workers a < 0 \<Longrightarrow> run m tf a w =
    (case SimulacraDataset_init (images_dir a) (db a) (Some tf) w of
       (Inl e, w1) \<Rightarrow> (Inl e, w1)
     | (Inr ds, w1) \<Rightarrow> (Inl (ValueError ''num_workers''), w1))"
  by (simp add: run_def DataLoader_def split: prod.splits sum.splits)

lemma execute_empty_store: "execute q empty_store = Inl (NoSuchTable ''images'')"
  by (simp add: execute_def prepare_def empty_store_def)

lemma init_database:
  "files w dbp = Some (Database s) \<Longrightarrow> \<not> private_name dbp \<Longrightarrow> execute (sqlite w) s = Inr recs
    \<Longrightarrow> SimulacraDataset_init dir dbp tf w
        = (Inr \<lparr>ds_images_dir = dir, ds_transform = tf, ds_conn = dbp, ds_ratings = recs\<rparr>, w)"
  by (simp add: SimulacraDataset_init_def connect_def conn_execute_def)

lemma init_success:
  assumes "SimulacraDataset_init dir dbp tf w = (Inr ds, w1)"
  shows "\<exists>s. \<not> private_name dbp \<and> files w dbp = Some (Database s)
    \<and> execute (sqlite w) s = Inr (ds_ratings ds) \<and> w1 = w
    \<and> ds_images_dir ds = dir \<and> ds_transform ds = tf"
  using assms
  by (auto simp: SimulacraDataset_init_def connect_def conn_execute_def execute_empty_store
      split: option.splits if_splits sum.splits content.splits)

lemma main_clip:
  "g ''clip'' = Some (ClipModule load) \<Longrightarrow> load (clip_model a) (resolve_device a w) = Inr (m, tf)
    \<Longrightarrow> main g a w = run m tf a w"
  by (simp add: main_def)

section \<open>The query\<close>

lemma joined_iff:
  "(i, g, r, p) \<in> set (joined im ge ra pa) \<longleftrightarrow>
     i \<in> set im \<and> g \<in> set ge \<and> i_gid i = g_id g \<and> r \<in> set ra \<and> i_id i = r_iid r
     \<and> p \<in> set pa \<and> i_id i = p_iid p"
  by (auto simp: joined_def)

lemma set_group_keys: "set (group_keys js) = key ` set js"
  by (simp add: group_keys_def)

lemma distinct_group_keys: "distinct (group_keys js)"
  by (simp add: group_keys_def)

lemma group_of_nonempty: "k \<in> set (group_keys js) \<Longrightarrow> group_of js k \<noteq> []"
  by (auto simp: set_group_keys group_of_def filter_empty_conv)

lemma length_select_row: "js \<noteq> [] \<Longrightarrow> length (select_row q js) = 1"
  by (simp add: select_row_def split: prod.splits)

lemma select_row_char:
  assumes "x \<in> set (select_row q js)"
  shows "js \<noteq> [] \<and> mean_rating_of x = AVG q (map rating_of js)
    \<and> (\<exists>i g r p. (i, g, r, p) \<in> set js \<and> x = (g_id g, i_idx i, p_path p, AVG q (map rating_of js)))"
proof -
  from assms have ne: "js \<noteq> []" by (auto simp: select_row_def)
  obtain i g r p where j: "js ! (bare_row q js mod length js) = (i, g, r, p)"
    by (cases "js ! (bare_row q js mod length js)") auto
  from ne have "js ! (bare_row q js mod length js) \<in> set js" by (intro nth_mem) simp
  with j have mem: "(i, g, r, p) \<in> set js" by simp
  from assms ne j have x: "x = (g_id g, i_idx i, p_path p, AVG q (map rating_of js))"
    by (simp add: select_row_def)
  with ne mem show ?thesis by (auto simp: mean_rating_of_def)
qed

text \<open>The rating values of a group, level by level of the nested loops.\<close>

lemma paths_level:
  "map rating_of (filter (\<lambda>j. key j = k) [(i, g, r, p). p \<leftarrow> pa, i_id i = p_iid p])
    = (if i_id i = k then replicate (length (paths_for pa k)) (r_rating r) else [])"
  by (induction pa) (auto simp: key_def rating_of_def paths_for_def)

lemma ratings_level:
  "map rating_of (filter (\<lambda>j. key j = k)
      [(i, g, r, p). r \<leftarrow> ra, i_id i = r_iid r, p \<leftarrow> pa, i_id i = p_iid p])
    = (if i_id i = k then repeated (length (paths_for pa k)) (ratings_for ra k) else [])"
proof (induction ra)
  case Nil
  then show ?case by (simp add: ratings_for_def repeated_def)
next
  case (Cons r ra)
  have "map rating_of (filter (\<lambda>j. key j = k) [(i, g, r, p). p \<leftarrow> pa, i_id i = p_iid p])
    = (if i_id i = k then replicate (length (paths_for pa k)) (r_rating r) else [])"
    by (rule paths_level)
  with Cons show ?case
    by (auto simp: ratings_for_def repeated_def)
qed

lemma gens_level:
  "map rating_of (filter (\<lambda>j. key j = k)
      [(i, g, r, p). g \<leftarrow> ge, i_gid i = g_id g, r \<leftarrow> ra, i_id i = r_iid r,
                     p \<leftarrow> pa, i_id i = p_iid p])
    = (if i_id i = k
       then concat (replicate (length (generations_for ge i))
              (repeated (length (paths_for pa k)) (ratings_for ra k)))
       else [])"
proof (cases "i_id i = k")
  case True
  have "map rating_of (filter (\<lambda>j. key j = i_id i)
      [(i, g, r, p). g \<leftarrow> ge, i_gid i = g_id g, r \<leftarrow> ra, i_id i = r_iid r,
                     p \<leftarrow> pa, i_id i = p_iid p])
    = concat (replicate (length (generations_for ge i))
              (repeated (length (paths_for pa (i_id i))) (ratings_for ra (i_id i))))"
  proof (induction ge)
    case Nil
    then show ?case by (simp add: generations_for_def)
  next
    case (Cons g ge)
    have r: "map rating_of (filter (\<lambda>j. key j = i_id i)
        [(i, g, r, p). r \<leftarrow> ra, i_id i = r_iid r, p \<leftarrow> pa, i_id i = p_iid p])
      = repeated (length (paths_for pa (i_id i))) (ratings_for ra (i_id i))"
      by (simp only: ratings_level) simp
    show ?case
    proof (cases "i_gid i = g_id g")
      case True
      with Cons r show ?thesis by (simp add: generations_for_def)
    next
      case False
      with Cons show ?thesis by (simp add: generations_for_def)
    qed
  qed
  with True show ?thesis by simp
next
  case False
  then have "filter (\<lambda>j. key j = k)
      [(i, g, r, p). g \<leftarrow> ge, i_gid i = g_id g, r \<leftarrow> ra, i_id i = r_iid r,
                     p \<leftarrow> pa, i_id i = p_iid p] = []"
    by (auto simp: filter_empty_conv key_def)
  with False show ?thesis by simp
qed

lemma repeated_0: "repeated 0 xs = []"
  by (induction xs) (simp_all add: repeated_def)

lemma concat_replicate_Nil: "concat (replicate n []) = []"
  by (induction n) simp_all

lemma group_ratings:
  "map rating_of (group_of (joined im ge ra pa) k)
    = concat (replicate (\<Sum>i\<leftarrow>filter (\<lambda>i. i_id i = k) im. length (generations_for ge i))
        (repeated (length (paths_for pa k)) (ratings_for ra k)))"
proof (induction im)
  case Nil
  then show ?case by (simp add: joined_def group_of_def)
next
  case (Cons i im)
  then show ?case
    by (auto simp: joined_def group_of_def gens_level replicate_add)
qed

lemma filter_distinct_key:
  "distinct (map f xs) \<Longrightarrow> x \<in> set xs \<Longrightarrow> filter (\<lambda>y. f y = f x) xs = [x]"
proof (induction xs)
  case Nil
  then show ?case by simp
next
  case (Cons y ys)
  show ?case
  proof (cases "x = y")
    case True
    from Cons.prems(1) have "f y \<notin> f ` set ys" by simp
    then have "\<forall>z \<in> set ys. f z \<noteq> f y" by (metis imageI)
    then have "filter (\<lambda>z. f z = f y) ys = []" by (auto simp: filter_empty_conv)
    with True show ?thesis by simp
  next
    case False
    with Cons.prems have "x \<in> set ys" by simp
    with Cons.prems(1) have "f y \<noteq> f x" by (metis distinct.simps(2) imageI list.simps(9) set_map)
    with Cons \<open>x \<in> set ys\<close> show ?thesis by simp
  qed
qed

lemma execute_prepared:
  "prepare s = Inr (im, ge, ra, pa) \<Longrightarrow>
    execute q s = Inr (concat (map (\<lambda>k. select_row q (group_of (joined im ge ra pa) k))
                       (group_keys (joined im ge ra pa))))"
  by (simp add: execute_def Let_def)

lemma concat_singletons:
  "\<forall>x \<in> set xs. length (f x) = 1 \<Longrightarrow>
     length (concat (map f xs)) = length xs
     \<and> (\<forall>n < length xs. concat (map f xs) ! n \<in> set (f (xs ! n)))"
proof (induction xs)
  case Nil
  then show ?case by simp
next
  case (Cons x xs)
  then obtain y where y: "f x = [y]"
    by (cases "f x") auto
  from Cons have IH: "length (concat (map f xs)) = length xs"
    "\<forall>n < length xs. concat (map f xs) ! n \<in> set (f (xs ! n))" by auto
  show ?case
  proof (intro conjI allI impI)
    show "length (concat (map f (x # xs))) = length (x # xs)" using y IH(1) by simp
  next
    fix n assume "n < length (x # xs)"
    then show "concat (map f (x # xs)) ! n \<in> set (f ((x # xs) ! n))"
      using y IH(2) by (cases n) auto
  qed
qed

lemma group_keys_iff:
  "k \<in> set (group_keys (joined im ge ra pa)) \<longleftrightarrow>
     (\<exists>i \<in> set im. i_id i = k \<and> generations_for ge i \<noteq> [])
     \<and> ratings_for ra k \<noteq> [] \<and> paths_for pa k \<noteq> []"
proof
  assume "k \<in> set (group_keys (joined im ge ra pa))"
  then obtain i g r p where "(i, g, r, p) \<in> set (joined im ge ra pa)" "i_id i = k"
    by (auto simp: set_group_keys key_def)
  then show "(\<exists>i \<in> set im. i_id i = k \<and> generations_for ge i \<noteq> [])
     \<and> ratings_for ra k \<noteq> [] \<and> paths_for pa k \<noteq> []"
    by (auto simp: joined_iff generations_for_def ratings_for_def paths_for_def filter_empty_conv)
next
  assume "(\<exists>i \<in> set im. i_id i = k \<and> generations_for ge i \<noteq> [])
     \<and> ratings_for ra k \<noteq> [] \<and> paths_for pa k \<noteq> []"
  then obtain i g r p where "i \<in> set im" "i_id i = k" "g \<in> set ge" "i_gid i = g_id g"
    "r \<in> set ra" "r_iid r = k" "p \<in> set pa" "p_iid p = k"
    by (auto simp: generations_for_def ratings_for_def paths_for_def filter_empty_conv)
  then have "(i, g, r, p) \<in> set (joined im ge ra pa)" by (simp add: joined_iff)
  with \<open>i_id i = k\<close> show "k \<in> set (group_keys (joined im ge ra pa))"
    by (force simp: set_group_keys key_def)
qed

text \<open>The records of a store whose statement compiles, one for each group, in the order of the keys.\<close>

lemma execute_records:
  assumes "prepare s = Inr (im, ge, ra, pa)"
  shows "\<exists>recs. execute q s = Inr recs
    \<and> length recs = length (group_keys (joined im ge ra pa))
    \<and> (\<forall>n < length recs.
          recs ! n \<in> set (select_row q
            (group_of (joined im ge ra pa) (group_keys (joined im ge ra pa) ! n))))"
proof -
  let ?js = "joined im ge ra pa"
  let ?ks = "group_keys ?js"
  let ?f = "\<lambda>k. select_row q (group_of ?js k)"
  have one: "\<forall>k \<in> set ?ks. length (?f k) = 1"
    by (simp add: length_select_row group_of_nonempty)
  have len: "length (concat (map ?f ?ks)) = length ?ks"
    and nth: "\<forall>n < length ?ks. concat (map ?f ?ks) ! n \<in> set (?f (?ks ! n))"
    using concat_singletons [OF one] by blast+
  have ex: "execute q s = Inr (concat (map ?f ?ks))" by (rule execute_prepared [OF assms])
  show ?thesis
  proof (intro exI conjI allI impI)
    show "execute q s = Inr (concat (map ?f ?ks))" by (rule ex)
    show "length (concat (map ?f ?ks)) = length ?ks" by (rule len)
    fix n assume "n < length (concat (map ?f ?ks))"
    then have "n < length ?ks" by (simp only: len)
    with nth show "concat (map ?f ?ks) ! n \<in> set (?f (?ks ! n))" by blast
  qed
qed

text \<open>The rating values that a group carries are those of its image.\<close>

lemma group_rating_set:
  assumes "group_of (joined im ge ra pa) k \<noteq> []"
  shows "set (map rating_of (group_of (joined im ge ra pa) k)) = set (ratings_for ra k)"
proof -
  let ?M = "\<Sum>i\<leftarrow>filter (\<lambda>i. i_id i = k) im. length (generations_for ge i)"
  let ?P = "length (paths_for pa k)"
  from assms have "map rating_of (group_of (joined im ge ra pa) k) \<noteq> []" by simp
  then have ne: "concat (replicate ?M (repeated ?P (ratings_for ra k))) \<noteq> []"
    unfolding group_ratings .
  have M: "?M \<noteq> 0"
  proof
    assume "?M = 0"
    then have "concat (replicate ?M (repeated ?P (ratings_for ra k))) = []" by simp
    with ne show False by simp
  qed
  have P: "?P \<noteq> 0"
  proof
    assume "?P = 0"
    then have "repeated ?P (ratings_for ra k) = []" by (simp only: repeated_0)
    then have "concat (replicate ?M (repeated ?P (ratings_for ra k))) = []"
      by (simp only: concat_replicate_Nil)
    with ne show False by simp
  qed
  have "set (concat (replicate ?M (repeated ?P (ratings_for ra k)))) = set (ratings_for ra k)"
    using M P by (auto simp: repeated_def)
  then show ?thesis by (simp only: group_ratings)
qed

text \<open>\<open>AVG\<close> on NULL and integers.\<close>

lemma AVG_all_NULL: "list_all (\<lambda>v. v = NULL) vs \<Longrightarrow> AVG q vs = None"
proof -
  assume "list_all (\<lambda>v. v = NULL) vs"
  then have "filter (\<lambda>v. v \<noteq> NULL) vs = []" by (auto simp: filter_empty_conv list_all_iff)
  then show ?thesis by (simp add: AVG_def)
qed

lemma integers_filter: "integers (filter (\<lambda>v. v \<noteq> NULL) vs) = integers vs"
  by (induction vs) (auto simp: integers_def)

lemma length_integers:
  "list_all (\<lambda>v. case v of NULL \<Rightarrow> True | INTEGER x \<Rightarrow> True | _ \<Rightarrow> False) vs
    \<Longrightarrow> length (integers vs) = length (filter (\<lambda>v. v \<noteq> NULL) vs)"
  by (induction vs) (auto simp: integers_def split: sqlval.splits)

lemma AVG_integers_Some:
  assumes "list_all (\<lambda>v. case v of NULL \<Rightarrow> True | INTEGER x \<Rightarrow> True | _ \<Rightarrow> False) vs"
    and "integers vs \<noteq> []"
  shows "AVG q vs \<noteq> None"
proof -
  from assms have "filter (\<lambda>v. v \<noteq> NULL) vs \<noteq> []"
    using length_integers [OF assms(1)] by auto
  with length_integers [OF assms(1)] show ?thesis
    by (simp add: AVG_def Let_def integers_filter)
qed

lemma integers_repeated: "integers (repeated n vs) = repeated n (integers vs)"
proof (induction vs)
  case Nil
  then show ?case by (simp add: integers_def repeated_def)
next
  case (Cons v vs)
  have "integers (replicate n v) = replicate n x" if "v = INTEGER x" for x
    using that by (induction n) (simp_all add: integers_def)
  moreover have "integers (replicate n v) = []" if "\<And>x. v \<noteq> INTEGER x"
    using that by (induction n) (auto simp: integers_def split: sqlval.splits)
  moreover have "integers (xs @ ys) = integers xs @ integers ys" for xs ys
    by (simp add: integers_def)
  ultimately show ?case using Cons
    by (cases v) (auto simp: repeated_def integers_def)
qed

lemma list_all_repeated: "0 < n \<Longrightarrow> list_all P (repeated n vs) = list_all P vs"
  by (induction vs) (auto simp: repeated_def list_all_iff)

lemma length_repeated: "length (repeated n xs) = n * length xs"
  by (induction xs) (simp_all add: repeated_def)

lemma sum_list_repeated: "sum_list (repeated n xs) = int n * sum_list xs"
  by (induction xs) (simp_all add: repeated_def sum_list_replicate algebra_simps)

lemma sum_list_abs_repeated: "sum_list (map abs (repeated n xs)) = int n * sum_list (map abs xs)"
  by (induction xs) (simp_all add: repeated_def sum_list_replicate algebra_simps)

lemma AVG_small_integers:
  assumes "small_integers n vs" and "0 < n"
  shows "AVG q (repeated n vs) = Some (binary64 (mean (integers vs)))"
proof -
  let ?ty = "\<lambda>v. case v of NULL \<Rightarrow> True | INTEGER x \<Rightarrow> True | _ \<Rightarrow> False"
  from assms(1) have ty: "list_all ?ty vs" and ne: "integers vs \<noteq> []"
    and s: "int n * sum_list (map abs (integers vs)) \<le> 2 ^ 53"
    and l: "int n * int (length (integers vs)) \<le> 2 ^ 53"
    by (simp_all add: small_integers_def)
  let ?ws = "repeated n vs"
  let ?ns = "integers ?ws"
  have ty': "list_all ?ty ?ws" using ty assms(2) by (simp add: list_all_repeated)
  have ns: "?ns = repeated n (integers vs)" by (rule integers_repeated)
  have len: "length ?ns = length (filter (\<lambda>v. v \<noteq> NULL) ?ws)"
    by (rule length_integers [OF ty'])
  have ln: "length ?ns = n * length (integers vs)" by (simp add: ns length_repeated)
  with ne assms(2) have pos: "0 < length ?ns" by simp
  with len have nonempty: "filter (\<lambda>v. v \<noteq> NULL) ?ws \<noteq> []" by auto
  have sa: "sum_list (map abs ?ns) \<le> 2 ^ 53" using s by (simp add: ns sum_list_abs_repeated)
  have la: "int (length ?ns) \<le> 2 ^ 53" using l by (simp add: ln)
  have q: "(of_int (sum_list ?ns) :: rat) / of_int (int (length ?ns)) = mean (integers vs)"
    using assms(2) by (simp add: ns sum_list_repeated length_repeated mean_def)
  have "AVG q ?ws = Some (binary64 (of_int (sum_list ?ns) / of_int (int (length ?ns))))"
    using nonempty len sa la by (simp add: AVG_def Let_def integers_filter)
  then show ?thesis by (simp only: q)
qed

lemma valid_store_generations:
  assumes "valid_store s" and "prepare s = Inr (im, ge, ra, pa)" and "i \<in> set im"
  shows "length (generations_for ge i) = 1"
proof -
  from assms have "i_gid i \<in> g_id ` set ge" and d: "distinct (map g_id ge)"
    by (auto simp: valid_store_def list_all_iff)
  then obtain g where g: "g \<in> set ge" "g_id g = i_gid i" by auto
  have "generations_for ge i = filter (\<lambda>y. g_id y = g_id g) ge"
    using g(2) by (auto simp: generations_for_def intro: filter_cong)
  also have "\<dots> = [g]" by (rule filter_distinct_key [OF d g(1)])
  finally show ?thesis by simp
qed

lemma valid_store_group:
  assumes "valid_store s" and "prepare s = Inr (im, ge, ra, pa)" and "k \<in> i_id ` set im"
  shows "map rating_of (group_of (joined im ge ra pa) k)
    = repeated (length (paths_for pa k)) (ratings_for ra k)"
proof -
  from assms(3) obtain i where i: "i \<in> set im" "i_id i = k" by auto
  from assms(1,2) have d: "distinct (map i_id im)" by (auto simp: valid_store_def)
  have "filter (\<lambda>y. i_id y = k) im = [i]"
    using filter_distinct_key [OF d i(1)] i(2) by simp
  moreover have "length (generations_for ge i) = 1"
    by (rule valid_store_generations [OF assms(1,2) i(1)])
  ultimately show ?thesis by (simp add: group_ratings)
qed

lemma image_ids_prepared:
  "prepare s = Inr (im, ge, ra, pa) \<Longrightarrow> image_ids s = remdups (map i_id im)"
  by (auto simp: prepare_def image_ids_def split: option.splits list.splits)

text \<open>The bare path of a record is the path of one of the path rows of its image.\<close>

lemma group_path:
  assumes "(i, g, r, p) \<in> set (group_of (joined im ge ra pa) k)"
  shows "p_path p \<in> set (paths_for pa k) \<and> i \<in> set im \<and> i_id i = k \<and> g \<in> set ge
    \<and> g_id g = i_gid i"
  using assms by (auto simp: group_of_def joined_iff key_def paths_for_def)

text \<open>The records of the example stores.\<close>

lemma execute_store0: "execute engine0 store0 = Inr records0"
  by (simp add: execute_def store0_def prepare_def missing_columns_def joined_def
    group_keys_def group_of_def key_def rating_of_def select_row_def AVG_def integers_def
    engine0_def records0_def binary64_3 binary64_5 binary64_4_3)

lemma execute_store1: "execute q store1 = Inr []"
  by (simp add: execute_def store1_def prepare_def missing_columns_def joined_def
    group_keys_def)

lemma execute_store2: "execute engine0 store2 = Inr [(10, 0, TEXT ''a.png'', Some (Finite 3))]"
  by (simp add: execute_def store2_def prepare_def missing_columns_def joined_def
    group_keys_def group_of_def key_def rating_of_def select_row_def AVG_def integers_def
    engine0_def binary64_3)

lemma execute_store3: "execute engine0 store3 = Inr [(10, 0, TEXT ''a.png'', None)]"
  by (simp add: execute_def store3_def prepare_def missing_columns_def joined_def
    group_keys_def group_of_def key_def rating_of_def select_row_def AVG_def integers_def
    engine0_def)

section \<open>Batch size invariance\<close>

text \<open>
  C6. With an encoder that encodes each image of a batch on its own, two runs that
  differ only in a positive batch size end alike: the same outcome and the same file
  system, so the same saved embeddings and ratings.
\<close>

theorem batch_size_invariance:
  assumes "g ''clip'' = Some (ClipModule load)"
    and "load (clip_model a) (resolve_device a w) = Inr (m, tf)"
    and "rowwise m"
    and "0 < b1" and "0 < b2"
  shows "main g (a\<lparr>batch_size := b1\<rparr>) w = main g (a\<lparr>batch_size := b2\<rparr>) w"
proof -
  have d: "resolve_device (a\<lparr>batch_size := b\<rparr>) w = resolve_device a w" for b
    by (simp add: resolve_device_def)
  have m: "main g (a\<lparr>batch_size := b\<rparr>) w = run m tf (a\<lparr>batch_size := b\<rparr>) w" for b
    using assms(1,2) main_clip [of g load "a\<lparr>batch_size := b\<rparr>" w m tf] by (simp add: d)
  show ?thesis
  proof (cases "0 \<le> num_workers a")
    case True
    with assms(3-5) show ?thesis
      by (simp add: m run_rowwise cong: prod.case_cong sum.case_cong if_cong)
  next
    case False
    then show ?thesis by (simp add: m run_bad_workers cong: prod.case_cong sum.case_cong)
  qed
qed

theorem batch_size_invariance_witness:
  "main names0 (args0\<lparr>batch_size := 1\<rparr>) world0 = main names0 (args0\<lparr>batch_size := 2\<rparr>) world0
    \<and> rowwise encoder0"
  using batch_size_invariance [of names0 load0 args0 world0 encoder0 Suc 1 2]
  by (simp add: names0_def load0_def rowwise_def encoder0_def)

section \<open>An empty store\<close>

text \<open>
  C5, as the code has it. With a store that returns no record, a loader that is built and
  an iteration that starts (no worker, or workers that are forked), the loop body never
  runs, both lists stay empty and \<open>torch.cat\<close> raises on the empty list of embeddings:
  the run aborts there and writes nothing.
\<close>

theorem empty_store_aborts:
  assumes "g ''clip'' = Some (ClipModule load)"
    and "load (clip_model a) (resolve_device a w) = Inr (m, tf)"
    and "\<not> private_name (db a)"
    and "files w (db a) = Some (Database s)"
    and "execute (sqlite w) s = Inr []"
    and "0 < batch_size a"
    and "num_workers a = 0 \<or> 0 < num_workers a \<and> start_method a = fork"
  shows "main g a w = (Inl CatEmptyList, w)"
proof -
  have "main g a w = run m tf a w" using assms(1,2) by (rule main_clip)
  also have "\<dots> = (Inl CatEmptyList, w)"
  proof -
    from assms(7) have nw: "0 \<le> num_workers a" by auto
    have init: "SimulacraDataset_init (images_dir a) (db a) (Some tf) w
      = (Inr \<lparr>ds_images_dir = images_dir a, ds_transform = Some tf, ds_conn = db a,
               ds_ratings = []\<rparr>, w)"
      using assms(3-5) by (simp add: init_database)
    from assms(7) have st: "\<not> (0 < num_workers a \<and> start_method a \<noteq> fork)" by auto
    show ?thesis
      unfolding run_char [OF assms(6) nw] init using st by (auto simp add: len_def)
  qed
  finally show ?thesis .
qed

theorem empty_store_aborts_witness:
  "main names0 args0 world1 = (Inl CatEmptyList, world1)"
  using empty_store_aborts [of names0 load0 args0 world1 encoder0 Suc store1]
  by (simp add: names0_def load0_def args0_def world1_def world0_def execute_store1
      private_name_def)

text \<open>
  C5 as stated fails on the store with four empty relations: the run crashes at the
  concatenation, and no file is at the output path afterwards.
\<close>

theorem empty_store_counterexample:
  "fst (main names0 args0 world1) = Inl CatEmptyList
    \<and> files (snd (main names0 args0 world1)) (output args0) = None"
  by (simp add: main_def names0_def args0_def load0_def run_def resolve_device_def truthy_def
     SimulacraDataset_init_def connect_def private_name_def world1_def world0_def
     conn_execute_def execute_store1 DataLoader_def iter_loader_def len_def torch_cat_def)

end
